theory Spec2Isabelle
  imports Main
begin

section \<open>The signaling relay of server.py\<close>

text \<open>
  The relay keeps two process-wide dictionaries, \<open>active_connections\<close> and
  \<open>peer_registry\<close>, and runs one coroutine \<open>websocket_endpoint\<close> per WebSocket
  connection. The event loop is single threaded and a coroutine is only suspended at an
  \<open>await\<close>: between \<open>await websocket.receive_text()\<close> and the single
  \<open>await ....send_text(...)\<close> of an iteration nothing else runs, and after that send
  the iteration only prints. One iteration of the read loop is therefore one atomic step
  on the shared state, and the relay is modelled as a step function over events.

  A \<open>print\<close> raises UnicodeEncodeError when standard output cannot encode its text.
  The identifiers of the path are well-formed texts (line 46 has printed the identifier
  before the loop is entered), and standard output is taken to encode every well-formed
  text, so the only \<open>print\<close> of the loop that can raise is the one that shows a value
  chosen inside a message: line 78, which shows the target that was not found.
\<close>

subsection \<open>JSON values\<close>

text \<open>
  The Python objects \<open>json.loads\<close> returns and \<open>json.dumps\<close> accepts. \<open>JNull\<close> is
  Python's \<open>None\<close>. A \<open>JDict\<close> carries the items of the dict (its keys are distinct).
  The relay never looks inside a float, so floats are an uninterpreted type.

  A Python \<open>str\<close> is either a well-formed text, \<open>JStr\<close>, or holds a lone surrogate
  (\<open>json.loads\<close> accepts the escape of U+D800 on its own), \<open>JStrSurrogate\<close> with its code points.
  The second kind is hashable and \<open>json.dumps\<close> escapes it, but it equals no literal of
  the code and no identifier of a path, and \<open>print\<close> cannot encode it.
\<close>

typedecl pyfloat

datatype json =
    JNull
  | JBool bool
  | JInt int
  | JFloat pyfloat
  | JStr string
  | JStrSurrogate "nat list"
  | JList "json list"
  | JDict "(string \<times> json) list"

text \<open>\<open>message.get(k)\<close>: the value stored under \<open>k\<close>, \<open>None\<close> when the key is missing.\<close>

definition dict_get :: "(string \<times> json) list \<Rightarrow> string \<Rightarrow> json" where
  "dict_get message k = (case map_of message k of None \<Rightarrow> JNull | Some v \<Rightarrow> v)"

subsection \<open>State\<close>

text \<open>A WebSocket object is known by its identity.\<close>

type_synonym websocket = nat

text \<open>The value stored in \<open>peer_registry\<close>: \<open>{"ws": websocket, "connected_to": None}\<close>.\<close>

record entry =
  ws :: websocket
  connected_to :: "string option"

text \<open>
  \<open>handlers\<close> holds the running \<open>websocket_endpoint\<close> coroutines that are inside the read
  loop: the connection each one serves and its local \<open>peer_id\<close>. \<open>dead\<close> holds the
  connections whose transport is gone, on which \<open>send_text\<close> raises. \<open>sent\<close> is the log
  of the text frames written, oldest first, each with the connection it was written to;
  a frame is kept as the dict handed to \<open>json.dumps\<close>.
\<close>

record relay =
  active_connections :: "string \<rightharpoonup> websocket"
  peer_registry :: "string \<rightharpoonup> entry"
  handlers :: "websocket \<rightharpoonup> string"
  dead :: "websocket set"
  sent :: "(websocket \<times> json) list"

definition init :: relay where
  "init = \<lparr>active_connections = Map.empty, peer_registry = Map.empty,
            handlers = Map.empty, dead = {}, sent = []\<rparr>"

text \<open>The frames written to one connection, in the order they were written.\<close>

definition outbox :: "relay \<Rightarrow> websocket \<Rightarrow> json list" where
  "outbox s w = map snd (filter (\<lambda>f. fst f = w) (sent s))"

subsection \<open>Exceptions\<close>

datatype error =
    WebSocketDisconnect
  | ReceiveError
  | JSONDecodeError
  | AttributeError
  | TypeError
  | SendError
  | UnicodeEncodeError

text \<open>
  What one \<open>await websocket.receive_text()\<close> followed by \<open>json.loads(data)\<close> can
  produce: the parsed value, a text that is not JSON, the peer's disconnect, or another
  failure of the read.
\<close>

datatype received =
    Parsed json
  | NotJSON
  | Disconnected
  | RecvFailed

subsection \<open>The body of websocket_endpoint\<close>

text \<open>
  A statement either completes, \<open>Inr\<close> with the new state, or raises, \<open>Inl\<close> with the
  exception and the state it was raised in. \<open>ending\<close> is the state in both cases.
\<close>

type_synonym outcome = "(error \<times> relay) + relay"

fun ending :: "outcome \<Rightarrow> relay" where
  "ending (Inl (e, s)) = s"
| "ending (Inr s) = s"

text \<open>\<open>await w.send_text(json.dumps(m))\<close>.\<close>

definition send_text :: "websocket \<Rightarrow> json \<Rightarrow> relay \<Rightarrow> outcome" where
  "send_text w m s =
     (if w \<in> dead s then Inl (SendError, s) else Inr (s\<lparr>sent := sent s @ [(w, m)]\<rparr>))"

text \<open>
  \<open>print(f"Peer {target_peer} not found")\<close>, line 78: the text of every value prints,
  but for a string with a lone surrogate.
\<close>

fun encodable :: "json \<Rightarrow> bool" where
  "encodable (JStrSurrogate cs) = False"
| "encodable v = True"

definition print_not_found :: "json \<Rightarrow> relay \<Rightarrow> outcome" where
  "print_not_found target_peer s =
     (if encodable target_peer then Inr s else Inl (UnicodeEncodeError, s))"

text \<open>
  \<open>target_peer in active_connections\<close> followed by \<open>active_connections[target_peer]\<close>.
  The keys are strings. A list or a dict cannot be hashed and the membership test raises
  TypeError; every other value that is not a string is simply not a key.
\<close>

fun lookup :: "(string \<rightharpoonup> websocket) \<Rightarrow> json \<Rightarrow> error + websocket option" where
  "lookup conns (JStr t) = Inr (conns t)"
| "lookup conns (JList xs) = Inl TypeError"
| "lookup conns (JDict kvs) = Inl TypeError"
| "lookup conns v = Inr None"

text \<open>Lines 39 to 44: both dictionaries are assigned at the key \<open>peer_id\<close>.\<close>

definition register :: "string \<Rightarrow> websocket \<Rightarrow> relay \<Rightarrow> relay" where
  "register peer_id websocket s =
     s\<lparr>active_connections := (active_connections s)(peer_id \<mapsto> websocket),
       peer_registry := (peer_registry s)(peer_id \<mapsto> \<lparr>ws = websocket, connected_to = None\<rparr>)\<rparr>"

text \<open>
  The branch shared by \<open>offer\<close>, \<open>answer\<close> and \<open>ice-candidate\<close>: the envelope goes
  to the target's connection when the target is a key, and a \<open>peer-unavailable\<close> reply
  goes to the sender's own connection otherwise. The \<open>connect\<close> branch, lines 64 to
  78, does the same and then prints the target in its \<open>else\<close>.
\<close>

definition peer_unavailable :: "json \<Rightarrow> json" where
  "peer_unavailable target_peer =
     JDict [(''type'', JStr ''peer-unavailable''), (''target'', target_peer)]"

definition forward_or_unavailable ::
  "websocket \<Rightarrow> json \<Rightarrow> json \<Rightarrow> relay \<Rightarrow> outcome" where
  "forward_or_unavailable websocket target_peer envelope s =
     (case lookup (active_connections s) target_peer of
        Inl e \<Rightarrow> Inl (e, s)
      | Inr (Some target_ws) \<Rightarrow> send_text target_ws envelope s
      | Inr None \<Rightarrow> send_text websocket (peer_unavailable target_peer) s)"

definition connect_or_unavailable ::
  "websocket \<Rightarrow> json \<Rightarrow> json \<Rightarrow> relay \<Rightarrow> outcome" where
  "connect_or_unavailable websocket target_peer envelope s =
     (case lookup (active_connections s) target_peer of
        Inl e \<Rightarrow> Inl (e, s)
      | Inr (Some target_ws) \<Rightarrow> send_text target_ws envelope s
      | Inr None \<Rightarrow>
          (case send_text websocket (peer_unavailable target_peer) s of
             Inl x \<Rightarrow> Inl x
           | Inr s' \<Rightarrow> print_not_found target_peer s'))"

text \<open>
  Lines 53 to 135, for a parsed message. \<open>message.get\<close> exists on a dict only: any
  other JSON value raises AttributeError. The \<open>disconnect\<close> branch has no \<open>else\<close>, and
  a type that matches no branch falls through the chain.
\<close>

definition dispatch :: "string \<Rightarrow> websocket \<Rightarrow> json \<Rightarrow> relay \<Rightarrow> outcome" where
  "dispatch peer_id websocket message s =
     (case message of
        JDict d \<Rightarrow>
          (let message_type = dict_get d ''type'';
               target_peer = dict_get d ''target''
           in if message_type = JStr ''register'' then
                send_text websocket
                  (JDict [(''type'', JStr ''registered''), (''peer_id'', JStr peer_id)]) s
              else if message_type = JStr ''connect'' then
                connect_or_unavailable websocket target_peer
                  (JDict [(''type'', JStr ''connection-request''), (''from'', JStr peer_id)]) s
              else if message_type = JStr ''offer'' then
                forward_or_unavailable websocket target_peer
                  (JDict [(''type'', JStr ''offer''), (''from'', JStr peer_id),
                          (''offer'', dict_get d ''offer'')]) s
              else if message_type = JStr ''answer'' then
                forward_or_unavailable websocket target_peer
                  (JDict [(''type'', JStr ''answer''), (''from'', JStr peer_id),
                          (''answer'', dict_get d ''answer'')]) s
              else if message_type = JStr ''ice-candidate'' then
                forward_or_unavailable websocket target_peer
                  (JDict [(''type'', JStr ''ice-candidate''), (''from'', JStr peer_id),
                          (''candidate'', dict_get d ''candidate'')]) s
              else if message_type = JStr ''disconnect'' then
                (case lookup (active_connections s) target_peer of
                   Inl e \<Rightarrow> Inl (e, s)
                 | Inr (Some target_ws) \<Rightarrow>
                     send_text target_ws
                       (JDict [(''type'', JStr ''peer-disconnected''), (''from'', JStr peer_id)]) s
                 | Inr None \<Rightarrow> Inr s)
              else Inr s)
      | _ \<Rightarrow> Inl (AttributeError, s))"

text \<open>One iteration of \<open>while True\<close>: lines 50 to 135.\<close>

fun iteration :: "string \<Rightarrow> websocket \<Rightarrow> received \<Rightarrow> relay \<Rightarrow> outcome" where
  "iteration peer_id websocket Disconnected s = Inl (WebSocketDisconnect, s)"
| "iteration peer_id websocket RecvFailed s = Inl (ReceiveError, s)"
| "iteration peer_id websocket NotJSON s = Inl (JSONDecodeError, s)"
| "iteration peer_id websocket (Parsed message) s = dispatch peer_id websocket message s"

text \<open>The \<open>finally\<close> block, lines 142 to 145.\<close>

definition cleanup :: "string \<Rightarrow> relay \<Rightarrow> relay" where
  "cleanup peer_id s =
     s\<lparr>active_connections := (active_connections s)(peer_id := None),
       peer_registry := (peer_registry s)(peer_id := None)\<rparr>"

subsection \<open>Events\<close>

text \<open>
  \<open>Open w p\<close>: a client connects to \<open>/ws/p\<close>, the connection \<open>w\<close> is accepted and
  lines 37 to 46 run. \<open>Recv w r\<close>: the coroutine serving \<open>w\<close> runs one iteration on
  \<open>r\<close>. \<open>Drop w\<close>: the transport of \<open>w\<close> goes away.

  Every connection has a WebSocket object of its own, so a connection that is being
  served is never accepted a second time, and only a connection that is being served
  reads: an \<open>Open\<close> or a \<open>Recv\<close> that does not fit leaves the state as it is.

  Both \<open>except\<close> clauses only print, so every exception raised inside the \<open>try\<close> ends
  in the \<open>finally\<close> block, after which the coroutine returns. The cleanup runs on the
  state the exception was raised in: the \<open>connect\<close> branch can raise after its reply has
  been written.
\<close>

datatype event =
    Open websocket string
  | Recv websocket received
  | Drop websocket

fun step :: "relay \<Rightarrow> event \<Rightarrow> relay" where
  "step s (Open w p) =
     (if w \<in> dom (handlers s) then s
      else register p w (s\<lparr>handlers := (handlers s)(w \<mapsto> p)\<rparr>))"
| "step s (Recv w r) =
     (case handlers s w of
        None \<Rightarrow> s
      | Some peer_id \<Rightarrow>
          (case iteration peer_id w r s of
             Inr s' \<Rightarrow> s'
           | Inl (e, s') \<Rightarrow> cleanup peer_id (s'\<lparr>handlers := (handlers s')(w := None)\<rparr>)))"
| "step s (Drop w) = s\<lparr>dead := insert w (dead s)\<rparr>"

definition run :: "relay \<Rightarrow> event list \<Rightarrow> relay" where
  "run s evs = foldl step s evs"

text \<open>
  Whether the read loop of the coroutine serving \<open>w\<close> is still running.
\<close>

definition serving :: "relay \<Rightarrow> websocket \<Rightarrow> bool" where
  "serving s w = (handlers s w \<noteq> None)"

text \<open>Whether an event is a client connecting under the identifier \<open>p\<close>.\<close>

fun opens :: "string \<Rightarrow> event \<Rightarrow> bool" where
  "opens p (Open w q) = (q = p)"
| "opens p (Recv w r) = False"
| "opens p (Drop w) = False"

text \<open>Two states that differ in \<open>peer_registry\<close> at most.\<close>

definition agree :: "relay \<Rightarrow> relay \<Rightarrow> bool" where
  "agree s t =
     (active_connections s = active_connections t \<and> handlers s = handlers t \<and>
      dead s = dead t \<and> sent s = sent t)"

text \<open>An outcome with \<open>peer_registry\<close> replaced in its state.\<close>

fun put_registry :: "(string \<rightharpoonup> entry) \<Rightarrow> outcome \<Rightarrow> outcome" where
  "put_registry reg (Inl (e, s)) = Inl (e, s\<lparr>peer_registry := reg\<rparr>)"
| "put_registry reg (Inr s) = Inr (s\<lparr>peer_registry := reg\<rparr>)"

text \<open>The frames written between a state and a later one.\<close>

definition written :: "relay \<Rightarrow> relay \<Rightarrow> (websocket \<times> json) list" where
  "written s s' = drop (length (sent s)) (sent s')"

subsection \<open>Vocabulary of the specification\<close>

text \<open>
  The specification's forwarded envelope for \<open>offer\<close>, \<open>answer\<close> and
  \<open>ice-candidate\<close>: \<open>{type: <same>, from: sender_id, <payload-field>: <payload>}\<close>,
  with the payload fields \<open>offer\<close>, \<open>answer\<close> and \<open>candidate\<close>. These two definitions
  follow the specification, not the code; the code is \<open>dispatch\<close>.
\<close>

definition spec_payload_field :: "json \<Rightarrow> string" where
  "spec_payload_field t =
     (if t = JStr ''offer'' then ''offer''
      else if t = JStr ''answer'' then ''answer''
      else ''candidate'')"

definition spec_forwarded :: "string \<Rightarrow> (string \<times> json) list \<Rightarrow> json" where
  "spec_forwarded sender_id d =
     JDict [(''type'', dict_get d ''type''),
            (''from'', JStr sender_id),
            (spec_payload_field (dict_get d ''type''),
             dict_get d (spec_payload_field (dict_get d ''type'')))]"

definition negotiation :: "(string \<times> json) list \<Rightarrow> bool" where
  "negotiation d =
     (dict_get d ''type'' = JStr ''offer'' \<or> dict_get d ''type'' = JStr ''answer'' \<or>
      dict_get d ''type'' = JStr ''ice-candidate'')"

text \<open>The four types whose branch has an \<open>else\<close> that replies \<open>peer-unavailable\<close>.\<close>

definition replying :: "(string \<times> json) list \<Rightarrow> bool" where
  "replying d = (dict_get d ''type'' = JStr ''connect'' \<or> negotiation d)"

text \<open>
  The keys the code passes to \<open>message.get\<close> on the path a message type selects:
  \<open>type\<close> and \<open>target\<close> before the chain, and the payload key inside the branch.
\<close>

definition consulted :: "json \<Rightarrow> string list" where
  "consulted message_type =
     (if message_type = JStr ''offer'' then [''type'', ''target'', ''offer'']
      else if message_type = JStr ''answer'' then [''type'', ''target'', ''answer'']
      else if message_type = JStr ''ice-candidate'' then [''type'', ''target'', ''candidate'']
      else [''type'', ''target''])"

section \<open>Startup of the process\<close>

text \<open>
  The \<open>__main__\<close> block, lines 148 to 170. A path is the list of its components;
  \<open>exists\<close> is the file system's answer to \<open>Path.exists\<close>. The block either prints its
  diagnostic and calls \<open>exit(1)\<close>, or reaches \<open>uvicorn.run\<close> with the arguments shown.
  \<open>Line\<close> is a printed text, \<open>PathLine\<close> the printed line that shows a path.
\<close>

type_synonym path = "string list"

datatype printed = Line string | PathLine path

record uvicorn_run =
  host :: string
  port :: nat
  ssl_keyfile :: path
  ssl_certfile :: path

datatype startup = Exit int | Serve uvicorn_run

definition main :: "path \<Rightarrow> (path \<Rightarrow> bool) \<Rightarrow> printed list \<times> startup" where
  "main BASE_DIR exists =
     (let keyfile = BASE_DIR @ [''cert.key''];
          certfile = BASE_DIR @ [''cert.crt'']
      in if \<not> exists keyfile \<or> \<not> exists certfile then
           ([Line ''SSL certificates not found!'',
             Line ''Please run: python generate_cert.py'',
             Line ''Or provide your own certificates:'',
             PathLine keyfile,
             PathLine certfile], Exit 1)
         else
           ([], Serve \<lparr>host = ''0.0.0.0'', port = 10500,
                       ssl_keyfile = keyfile, ssl_certfile = certfile\<rparr>))"

section \<open>Basic facts\<close>

lemma run_Nil: "run s [] = s"
  by (simp add: run_def)

lemma run_Cons: "run s (e # evs) = run (step s e) evs"
  by (simp add: run_def)

lemma written_same: "written s s = []"
  by (simp add: written_def)

lemma written_cleanup: "written s (cleanup p (s'\<lparr>handlers := h\<rparr>)) = written s s'"
  by (simp add: written_def cleanup_def)

subsection \<open>An iteration only appends frames\<close>

lemma send_text_ending:
  "ending (send_text tw m s) = s \<or>
   ending (send_text tw m s) = s\<lparr>sent := sent s @ [(tw, m)]\<rparr>"
  by (simp add: send_text_def)

lemma print_not_found_ending: "ending (print_not_found tp s) = s"
  by (simp add: print_not_found_def)

lemma forward_or_unavailable_ending:
  "ending (forward_or_unavailable w tp env s) = s \<or>
   (\<exists>tw. ending (forward_or_unavailable w tp env s) = s\<lparr>sent := sent s @ [(tw, env)]\<rparr>) \<or>
   ending (forward_or_unavailable w tp env s) = s\<lparr>sent := sent s @ [(w, peer_unavailable tp)]\<rparr>"
  by (auto simp add: forward_or_unavailable_def send_text_def split: sum.splits option.splits)

lemma connect_or_unavailable_ending:
  "ending (connect_or_unavailable w tp env s) = s \<or>
   (\<exists>tw. ending (connect_or_unavailable w tp env s) = s\<lparr>sent := sent s @ [(tw, env)]\<rparr>) \<or>
   ending (connect_or_unavailable w tp env s) = s\<lparr>sent := sent s @ [(w, peer_unavailable tp)]\<rparr>"
  by (auto simp add: connect_or_unavailable_def send_text_def print_not_found_def
      split: sum.splits option.splits)

lemma notify_ending:
  "ending (case lookup conns tp of
             Inl e \<Rightarrow> Inl (e, s)
           | Inr (Some target_ws) \<Rightarrow> send_text target_ws env s
           | Inr None \<Rightarrow> Inr s) = s \<or>
   (\<exists>tw. ending (case lookup conns tp of
             Inl e \<Rightarrow> Inl (e, s)
           | Inr (Some target_ws) \<Rightarrow> send_text target_ws env s
           | Inr None \<Rightarrow> Inr s) = s\<lparr>sent := sent s @ [(tw, env)]\<rparr>)"
  by (auto simp add: send_text_def split: sum.splits option.splits)

text \<open>
  The frames an iteration on a dict writes: nothing, the envelope of its branch to some
  connection, or the \<open>peer-unavailable\<close> reply to the sender.
\<close>

lemma dispatch_ending:
  "ending (dispatch p w (JDict d) s) = s \<or>
   (\<exists>tw env. ending (dispatch p w (JDict d) s) = s\<lparr>sent := sent s @ [(tw, env)]\<rparr> \<and>
      env \<in> {JDict [(''type'', JStr ''registered''), (''peer_id'', JStr p)],
              JDict [(''type'', JStr ''connection-request''), (''from'', JStr p)],
              JDict [(''type'', JStr ''offer''), (''from'', JStr p),
                     (''offer'', dict_get d ''offer'')],
              JDict [(''type'', JStr ''answer''), (''from'', JStr p),
                     (''answer'', dict_get d ''answer'')],
              JDict [(''type'', JStr ''ice-candidate''), (''from'', JStr p),
                     (''candidate'', dict_get d ''candidate'')],
              JDict [(''type'', JStr ''peer-disconnected''), (''from'', JStr p)],
              peer_unavailable (dict_get d ''target'')})"
proof -
  let ?t = "dict_get d ''type''"
  let ?tp = "dict_get d ''target''"
  define E where "E = {JDict [(''type'', JStr ''registered''), (''peer_id'', JStr p)],
              JDict [(''type'', JStr ''connection-request''), (''from'', JStr p)],
              JDict [(''type'', JStr ''offer''), (''from'', JStr p),
                     (''offer'', dict_get d ''offer'')],
              JDict [(''type'', JStr ''answer''), (''from'', JStr p),
                     (''answer'', dict_get d ''answer'')],
              JDict [(''type'', JStr ''ice-candidate''), (''from'', JStr p),
                     (''candidate'', dict_get d ''candidate'')],
              JDict [(''type'', JStr ''peer-disconnected''), (''from'', JStr p)],
              peer_unavailable (dict_get d ''target'')}"
  define R where "R = (\<lambda>st. st = s \<or> (\<exists>tw env. st = s\<lparr>sent := sent s @ [(tw, env)]\<rparr> \<and> env \<in> E))"
  have keep: "R s" by (simp add: R_def)
  have put: "R (s\<lparr>sent := sent s @ [(tw, env)]\<rparr>)" if "env \<in> E" for tw env
    unfolding R_def using that by blast
  have unav: "peer_unavailable ?tp \<in> E" by (simp add: E_def)
  have sent1: "R (ending (send_text tw env s))" if "env \<in> E" for tw env
    using send_text_ending [of tw env s] keep put [OF that, of tw] by metis
  have fwd: "R (ending (forward_or_unavailable w ?tp env s))" if "env \<in> E" for env
  proof -
    from forward_or_unavailable_ending [of w ?tp env s]
    consider "ending (forward_or_unavailable w ?tp env s) = s"
      | tw where "ending (forward_or_unavailable w ?tp env s) = s\<lparr>sent := sent s @ [(tw, env)]\<rparr>"
      | "ending (forward_or_unavailable w ?tp env s) =
           s\<lparr>sent := sent s @ [(w, peer_unavailable ?tp)]\<rparr>"
      by blast
    then show ?thesis
    proof cases
      case 1
      then show ?thesis by (simp add: keep)
    next
      case 2
      then show ?thesis by (simp add: put [OF that])
    next
      case 3
      then show ?thesis by (simp add: put [OF unav])
    qed
  qed
  have con: "R (ending (connect_or_unavailable w ?tp env s))" if "env \<in> E" for env
  proof -
    from connect_or_unavailable_ending [of w ?tp env s]
    consider "ending (connect_or_unavailable w ?tp env s) = s"
      | tw where "ending (connect_or_unavailable w ?tp env s) = s\<lparr>sent := sent s @ [(tw, env)]\<rparr>"
      | "ending (connect_or_unavailable w ?tp env s) =
           s\<lparr>sent := sent s @ [(w, peer_unavailable ?tp)]\<rparr>"
      by blast
    then show ?thesis
    proof cases
      case 1
      then show ?thesis by (simp add: keep)
    next
      case 2
      then show ?thesis by (simp add: put [OF that])
    next
      case 3
      then show ?thesis by (simp add: put [OF unav])
    qed
  qed
  have bye: "R (ending (case lookup (active_connections s) ?tp of
             Inl e \<Rightarrow> Inl (e, s)
           | Inr (Some target_ws) \<Rightarrow> send_text target_ws env s
           | Inr None \<Rightarrow> Inr s))" if "env \<in> E" for env
  proof -
    from notify_ending [where conns = "active_connections s" and tp = ?tp and s = s and env = env]
    consider "ending (case lookup (active_connections s) ?tp of
             Inl e \<Rightarrow> Inl (e, s)
           | Inr (Some target_ws) \<Rightarrow> send_text target_ws env s
           | Inr None \<Rightarrow> Inr s) = s"
      | tw where "ending (case lookup (active_connections s) ?tp of
             Inl e \<Rightarrow> Inl (e, s)
           | Inr (Some target_ws) \<Rightarrow> send_text target_ws env s
           | Inr None \<Rightarrow> Inr s) = s\<lparr>sent := sent s @ [(tw, env)]\<rparr>"
      by blast
    then show ?thesis
    proof cases
      case 1
      then show ?thesis by (simp add: keep)
    next
      case 2
      then show ?thesis by (simp add: put [OF that])
    qed
  qed
  have "R (ending (dispatch p w (JDict d) s))"
  proof -
    consider (register) "?t = JStr ''register''"
      | (connect) "?t \<noteq> JStr ''register''" "?t = JStr ''connect''"
      | (offer) "?t \<noteq> JStr ''register''" "?t \<noteq> JStr ''connect''" "?t = JStr ''offer''"
      | (answer) "?t \<noteq> JStr ''register''" "?t \<noteq> JStr ''connect''" "?t \<noteq> JStr ''offer''"
          "?t = JStr ''answer''"
      | (ice) "?t \<noteq> JStr ''register''" "?t \<noteq> JStr ''connect''" "?t \<noteq> JStr ''offer''"
          "?t \<noteq> JStr ''answer''" "?t = JStr ''ice-candidate''"
      | (disconnect) "?t \<noteq> JStr ''register''" "?t \<noteq> JStr ''connect''" "?t \<noteq> JStr ''offer''"
          "?t \<noteq> JStr ''answer''" "?t \<noteq> JStr ''ice-candidate''" "?t = JStr ''disconnect''"
      | (other) "?t \<noteq> JStr ''register''" "?t \<noteq> JStr ''connect''" "?t \<noteq> JStr ''offer''"
          "?t \<noteq> JStr ''answer''" "?t \<noteq> JStr ''ice-candidate''" "?t \<noteq> JStr ''disconnect''"
      by blast
    then show ?thesis
    proof cases
      case register
      have "JDict [(''type'', JStr ''registered''), (''peer_id'', JStr p)] \<in> E"
        by (simp add: E_def)
      from sent1 [OF this, of w] register show ?thesis by (simp add: dispatch_def)
    next
      case connect
      have "JDict [(''type'', JStr ''connection-request''), (''from'', JStr p)] \<in> E"
        by (simp add: E_def)
      from con [OF this] connect show ?thesis by (simp add: dispatch_def)
    next
      case offer
      have "JDict [(''type'', JStr ''offer''), (''from'', JStr p),
                   (''offer'', dict_get d ''offer'')] \<in> E"
        by (simp add: E_def)
      from fwd [OF this] offer show ?thesis by (simp add: dispatch_def)
    next
      case answer
      have "JDict [(''type'', JStr ''answer''), (''from'', JStr p),
                   (''answer'', dict_get d ''answer'')] \<in> E"
        by (simp add: E_def)
      from fwd [OF this] answer show ?thesis by (simp add: dispatch_def)
    next
      case ice
      have "JDict [(''type'', JStr ''ice-candidate''), (''from'', JStr p),
                   (''candidate'', dict_get d ''candidate'')] \<in> E"
        by (simp add: E_def)
      from fwd [OF this] ice show ?thesis by (simp add: dispatch_def)
    next
      case disconnect
      have "JDict [(''type'', JStr ''peer-disconnected''), (''from'', JStr p)] \<in> E"
        by (simp add: E_def)
      from bye [OF this] disconnect show ?thesis by (simp add: dispatch_def)
    next
      case other
      with keep show ?thesis by (simp add: dispatch_def)
    qed
  qed
  then show ?thesis unfolding R_def E_def .
qed

lemma iteration_ending:
  "\<exists>fs. ending (iteration p w r s) = s\<lparr>sent := sent s @ fs\<rparr>"
proof -
  have keep: "\<exists>fs. s = s\<lparr>sent := sent s @ fs\<rparr>"
    by (rule exI [of _ "[]"]) simp
  show ?thesis
  proof (cases r)
    case (Parsed m)
    show ?thesis
    proof (cases "\<exists>d. m = JDict d")
      case True
      then obtain d where "m = JDict d" ..
      with Parsed dispatch_ending [of p w d s] keep show ?thesis by auto
    next
      case False
      then have "dispatch p w m s = Inl (AttributeError, s)"
        by (cases m) (simp_all add: dispatch_def)
      with Parsed keep show ?thesis by simp
    qed
  qed (simp_all add: keep)
qed

lemma iteration_appends:
  "ending (iteration p w r s) = s\<lparr>sent := sent s @ written s (ending (iteration p w r s))\<rparr>"
proof -
  from iteration_ending obtain fs where "ending (iteration p w r s) = s\<lparr>sent := sent s @ fs\<rparr>" ..
  then show ?thesis by (simp add: written_def)
qed

lemma iteration_frame:
  shows "active_connections (ending (iteration p w r s)) = active_connections s"
    and "peer_registry (ending (iteration p w r s)) = peer_registry s"
    and "handlers (ending (iteration p w r s)) = handlers s"
    and "dead (ending (iteration p w r s)) = dead s"
proof -
  from iteration_ending obtain fs where e: "ending (iteration p w r s) = s\<lparr>sent := sent s @ fs\<rparr>" ..
  show "active_connections (ending (iteration p w r s)) = active_connections s" by (simp add: e)
  show "peer_registry (ending (iteration p w r s)) = peer_registry s" by (simp add: e)
  show "handlers (ending (iteration p w r s)) = handlers s" by (simp add: e)
  show "dead (ending (iteration p w r s)) = dead s" by (simp add: e)
qed

text \<open>A step of a coroutine, in terms of the state its iteration ends in.\<close>

lemma step_Recv_serving:
  "handlers s w = Some p \<Longrightarrow>
   step s (Recv w r) =
     (case iteration p w r s of
        Inr s' \<Rightarrow> s'
      | Inl x \<Rightarrow> cleanup p ((ending (iteration p w r s))
                   \<lparr>handlers := (handlers s)(w := None)\<rparr>))"
  using iteration_frame(3) [of p w r s]
  by (auto split: sum.splits)

lemma step_Recv_raised:
  assumes "handlers s w = Some p" and "iteration p w r s = Inl (e, s')"
  shows "step s (Recv w r) = cleanup p (s'\<lparr>handlers := (handlers s)(w := None)\<rparr>)"
    and "active_connections s' = active_connections s"
    and "peer_registry s' = peer_registry s"
    and "dead s' = dead s"
proof -
  from assms(2) have e: "ending (iteration p w r s) = s'" by simp
  from iteration_frame(3) [of p w r s] e have "handlers s' = handlers s" by simp
  with assms show "step s (Recv w r) = cleanup p (s'\<lparr>handlers := (handlers s)(w := None)\<rparr>)"
    by simp
  from iteration_frame(1) [of p w r s] e show "active_connections s' = active_connections s"
    by simp
  from iteration_frame(2) [of p w r s] e show "peer_registry s' = peer_registry s" by simp
  from iteration_frame(4) [of p w r s] e show "dead s' = dead s" by simp
qed

lemma step_Recv_completed:
  assumes "handlers s w = Some p" and "iteration p w r s = Inr s'"
  shows "step s (Recv w r) = s'"
    and "active_connections s' = active_connections s"
    and "peer_registry s' = peer_registry s"
    and "handlers s' = handlers s"
proof -
  from assms(2) have e: "ending (iteration p w r s) = s'" by simp
  from assms show "step s (Recv w r) = s'" by simp
  from iteration_frame(1) [of p w r s] e show "active_connections s' = active_connections s"
    by simp
  from iteration_frame(2) [of p w r s] e show "peer_registry s' = peer_registry s" by simp
  from iteration_frame(3) [of p w r s] e show "handlers s' = handlers s" by simp
qed

lemma step_Recv_written:
  assumes "handlers s w = Some p"
  shows "written s (step s (Recv w r)) = written s (ending (iteration p w r s))"
proof (cases "iteration p w r s")
  case (Inl x)
  obtain e s' where x: "x = (e, s')" by (cases x)
  from step_Recv_raised(1) [OF assms Inl [unfolded x]] Inl x show ?thesis
    by (simp add: written_cleanup)
next
  case (Inr s')
  with assms show ?thesis by simp
qed

text \<open>
  Frames are only ever appended to the log: whatever other coroutines do in between,
  frames already written keep their place and their order.
\<close>

lemma step_sent_grows: "sent (step s ev) = sent s @ written s (step s ev)"
proof (cases ev)
  case (Open w q)
  then show ?thesis by (simp add: written_def register_def)
next
  case (Recv w r)
  show ?thesis
  proof (cases "handlers s w")
    case None
    with Recv show ?thesis by (simp add: written_def)
  next
    case (Some q)
    from iteration_ending obtain fs
      where e: "ending (iteration q w r s) = s\<lparr>sent := sent s @ fs\<rparr>" ..
    show ?thesis
    proof (cases "iteration q w r s")
      case (Inl x)
      obtain ex s' where x: "x = (ex, s')" by (cases x)
      with Inl e have "s' = s\<lparr>sent := sent s @ fs\<rparr>" by simp
      with step_Recv_raised(1) [OF Some Inl [unfolded x]] Recv show ?thesis
        by (simp add: written_def cleanup_def)
    next
      case (Inr s')
      with e have "s' = s\<lparr>sent := sent s @ fs\<rparr>" by simp
      with Recv Some Inr show ?thesis by (simp add: written_def)
    qed
  qed
next
  case (Drop w)
  then show ?thesis by (simp add: written_def)
qed

lemma run_sent_grows: "sent (run s evs) = sent s @ written s (run s evs)"
proof (induction evs arbitrary: s)
  case Nil
  then show ?case by (simp add: run_Nil written_def)
next
  case (Cons ev evs)
  have "sent (run (step s ev) evs) = sent (step s ev) @ written (step s ev) (run (step s ev) evs)"
    by (rule Cons.IH)
  also have "sent (step s ev) = sent s @ written s (step s ev)"
    by (rule step_sent_grows)
  finally have "sent (run s (ev # evs)) =
      sent s @ written s (step s ev) @ written (step s ev) (run (step s ev) evs)"
    by (simp add: run_Cons)
  then show ?case by (simp add: written_def)
qed

subsection \<open>Forwarding and replies\<close>

lemma forward_step:
  assumes "handlers s wx = Some X"
    and "active_connections s Y = Some wy"
    and "wy \<notin> dead s"
    and "negotiation d"
    and "dict_get d ''target'' = JStr Y"
  shows "step s (Recv wx (Parsed (JDict d))) = s\<lparr>sent := sent s @ [(wy, spec_forwarded X d)]\<rparr>"
proof -
  from assms(2,3,5) have fwd: "forward_or_unavailable wx (dict_get d ''target'') env s =
      Inr (s\<lparr>sent := sent s @ [(wy, env)]\<rparr>)" for env
    by (simp add: forward_or_unavailable_def send_text_def)
  from assms(4) have "dispatch X wx (JDict d) s =
      Inr (s\<lparr>sent := sent s @ [(wy, spec_forwarded X d)]\<rparr>)"
    unfolding negotiation_def
  proof (elim disjE)
    assume t: "dict_get d ''type'' = JStr ''offer''"
    then show ?thesis
      by (simp add: dispatch_def fwd spec_forwarded_def spec_payload_field_def)
  next
    assume t: "dict_get d ''type'' = JStr ''answer''"
    then show ?thesis
      by (simp add: dispatch_def fwd spec_forwarded_def spec_payload_field_def)
  next
    assume t: "dict_get d ''type'' = JStr ''ice-candidate''"
    then show ?thesis
      by (simp add: dispatch_def fwd spec_forwarded_def spec_payload_field_def)
  qed
  with assms(1) show ?thesis by simp
qed

text \<open>
  The reply to a target that is not a key. The \<open>connect\<close> branch prints the target
  after the reply: when that raises, the reply has been written all the same.
\<close>

lemma unavailable_dispatch:
  assumes "w \<notin> dead s"
    and "replying d"
    and "lookup (active_connections s) (dict_get d ''target'') = Inr None"
  shows "ending (dispatch p w (JDict d) s) =
           s\<lparr>sent := sent s @ [(w, peer_unavailable (dict_get d ''target''))]\<rparr>"
    and "negotiation d \<or> encodable (dict_get d ''target'') \<Longrightarrow>
         dispatch p w (JDict d) s =
           Inr (s\<lparr>sent := sent s @ [(w, peer_unavailable (dict_get d ''target''))]\<rparr>)"
proof -
  let ?tp = "dict_get d ''target''"
  let ?s' = "s\<lparr>sent := sent s @ [(w, peer_unavailable ?tp)]\<rparr>"
  from assms(1,3) have fwd: "forward_or_unavailable w ?tp env s = Inr ?s'" for env
    by (simp add: forward_or_unavailable_def send_text_def)
  from assms(1,3) have con: "connect_or_unavailable w ?tp env s = print_not_found ?tp ?s'" for env
    by (simp add: connect_or_unavailable_def send_text_def)
  from assms(2) consider (connect) "dict_get d ''type'' = JStr ''connect''"
    | (offer) "dict_get d ''type'' = JStr ''offer''"
    | (answer) "dict_get d ''type'' = JStr ''answer''"
    | (ice) "dict_get d ''type'' = JStr ''ice-candidate''"
    unfolding replying_def negotiation_def by blast
  then have d: "dispatch p w (JDict d) s = Inr ?s' \<or>
      (dict_get d ''type'' = JStr ''connect'' \<and> dispatch p w (JDict d) s = print_not_found ?tp ?s')"
  proof cases
    case connect
    then show ?thesis by (simp add: dispatch_def con)
  next
    case offer
    then show ?thesis by (simp add: dispatch_def fwd)
  next
    case answer
    then show ?thesis by (simp add: dispatch_def fwd)
  next
    case ice
    then show ?thesis by (simp add: dispatch_def fwd)
  qed
  then show "ending (dispatch p w (JDict d) s) = ?s'"
    by (auto simp add: print_not_found_ending)
  show "dispatch p w (JDict d) s = Inr ?s'"
    if "negotiation d \<or> encodable ?tp"
  proof -
    from d consider "dispatch p w (JDict d) s = Inr ?s'"
      | "dict_get d ''type'' = JStr ''connect''" "dispatch p w (JDict d) s = print_not_found ?tp ?s'"
      by blast
    then show ?thesis
    proof cases
      case 1
      then show ?thesis .
    next
      case 2
      from 2(1) have "\<not> negotiation d" by (simp add: negotiation_def)
      with that have "encodable ?tp" by simp
      with 2(2) show ?thesis by (simp add: print_not_found_def)
    qed
  qed
qed

lemma unavailable_step:
  assumes "handlers s w = Some p"
    and "w \<notin> dead s"
    and "replying d"
    and "lookup (active_connections s) (dict_get d ''target'') = Inr None"
    and "negotiation d \<or> encodable (dict_get d ''target'')"
  shows "step s (Recv w (Parsed (JDict d))) =
           s\<lparr>sent := sent s @ [(w, peer_unavailable (dict_get d ''target''))]\<rparr>"
  using unavailable_dispatch(2) [OF assms(2,3,4,5), of p] assms(1) by simp

lemma unavailable_written:
  assumes "handlers s w = Some p"
    and "w \<notin> dead s"
    and "replying d"
    and "lookup (active_connections s) (dict_get d ''target'') = Inr None"
  shows "written s (step s (Recv w (Parsed (JDict d)))) =
           [(w, peer_unavailable (dict_get d ''target''))]"
  unfolding step_Recv_written [OF assms(1)] iteration.simps
    unavailable_dispatch(1) [OF assms(2,3,4), of p]
  by (simp add: written_def)

subsection \<open>Keys that are absent, entries of the registry\<close>

lemma step_keeps_absent:
  assumes "active_connections s p = None" and "\<not> opens p ev"
  shows "active_connections (step s ev) p = None"
proof (cases ev)
  case (Open w q)
  with assms show ?thesis by (simp add: register_def)
next
  case (Recv w r)
  show ?thesis
  proof (cases "handlers s w")
    case None
    with Recv assms show ?thesis by simp
  next
    case (Some q)
    show ?thesis
    proof (cases "iteration q w r s")
      case (Inl x)
      obtain e s' where x: "x = (e, s')" by (cases x)
      from step_Recv_raised(1,2) [OF Some Inl [unfolded x]] Recv assms show ?thesis
        by (simp add: cleanup_def)
    next
      case (Inr s')
      from step_Recv_completed(1,2) [OF Some Inr] Recv assms show ?thesis by simp
    qed
  qed
next
  case (Drop w)
  with assms show ?thesis by simp
qed

lemma run_keeps_absent:
  "active_connections s p = None \<Longrightarrow> \<forall>ev \<in> set evs. \<not> opens p ev \<Longrightarrow>
   active_connections (run s evs) p = None"
proof (induction evs arbitrary: s)
  case Nil
  then show ?case by (simp add: run_Nil)
next
  case (Cons ev evs)
  then show ?case by (simp add: run_Cons step_keeps_absent)
qed

lemma step_connected_to:
  assumes inv: "\<And>q e. peer_registry s q = Some e \<Longrightarrow> connected_to e = None"
    and "peer_registry (step s ev) p = Some e"
  shows "connected_to e = None"
proof (cases ev)
  case (Open w q)
  with assms show ?thesis by (auto simp add: register_def split: if_splits)
next
  case (Recv w r)
  show ?thesis
  proof (cases "handlers s w")
    case None
    with Recv assms show ?thesis by simp
  next
    case (Some q)
    show ?thesis
    proof (cases "iteration q w r s")
      case (Inl x)
      obtain ex s' where x: "x = (ex, s')" by (cases x)
      from step_Recv_raised(1,3) [OF Some Inl [unfolded x]] Recv assms(2)
      have "peer_registry s p = Some e"
        by (auto simp add: cleanup_def split: if_splits)
      then show ?thesis by (rule inv)
    next
      case (Inr s')
      from step_Recv_completed(1,3) [OF Some Inr] Recv assms(2)
      have "peer_registry s p = Some e" by simp
      then show ?thesis by (rule inv)
    qed
  qed
next
  case (Drop w)
  with assms show ?thesis by simp
qed

lemma run_connected_to:
  "(\<And>q e. peer_registry s q = Some e \<Longrightarrow> connected_to e = None) \<Longrightarrow>
   peer_registry (run s evs) p = Some e \<Longrightarrow> connected_to e = None"
proof (induction evs arbitrary: s)
  case Nil
  then show ?case by (simp add: run_Nil)
next
  case (Cons ev evs)
  show ?case
  proof (rule Cons.IH [of "step s ev"])
    fix q e'
    assume "peer_registry (step s ev) q = Some e'"
    with Cons.prems(1) show "connected_to e' = None" by (rule step_connected_to)
  next
    from Cons.prems(2) show "peer_registry (run (step s ev) evs) p = Some e"
      by (simp add: run_Cons)
  qed
qed

text \<open>No step reads \<open>peer_registry\<close>: replacing it changes nothing but \<open>peer_registry\<close>.\<close>

lemma send_text_registry:
  "send_text w m (s\<lparr>peer_registry := reg\<rparr>) = put_registry reg (send_text w m s)"
  by (simp add: send_text_def)

lemma print_not_found_registry:
  "print_not_found tp (s\<lparr>peer_registry := reg\<rparr>) = put_registry reg (print_not_found tp s)"
  by (simp add: print_not_found_def)

lemma forward_or_unavailable_registry:
  "forward_or_unavailable w tp env (s\<lparr>peer_registry := reg\<rparr>) =
     put_registry reg (forward_or_unavailable w tp env s)"
  by (simp add: forward_or_unavailable_def send_text_registry split: sum.splits option.splits)

lemma connect_or_unavailable_registry:
  "connect_or_unavailable w tp env (s\<lparr>peer_registry := reg\<rparr>) =
     put_registry reg (connect_or_unavailable w tp env s)"
proof (cases "send_text w (peer_unavailable tp) s")
  case (Inl x)
  obtain e s' where "x = (e, s')" by (cases x)
  with Inl show ?thesis
    by (simp add: connect_or_unavailable_def send_text_registry
        split: sum.splits option.splits)
next
  case (Inr s')
  then show ?thesis
    by (simp add: connect_or_unavailable_def send_text_registry print_not_found_registry
        split: sum.splits option.splits)
qed

lemma notify_registry:
  "(case lookup conns tp of
      Inl e \<Rightarrow> Inl (e, s\<lparr>peer_registry := reg\<rparr>)
    | Inr (Some target_ws) \<Rightarrow> send_text target_ws env (s\<lparr>peer_registry := reg\<rparr>)
    | Inr None \<Rightarrow> Inr (s\<lparr>peer_registry := reg\<rparr>)) =
   put_registry reg
     (case lookup conns tp of
        Inl e \<Rightarrow> Inl (e, s)
      | Inr (Some target_ws) \<Rightarrow> send_text target_ws env s
      | Inr None \<Rightarrow> Inr s)"
  by (simp add: send_text_registry split: sum.splits option.splits)

lemma dispatch_registry:
  "dispatch p w m (s\<lparr>peer_registry := reg\<rparr>) = put_registry reg (dispatch p w m s)"
proof (cases m)
  case (JDict d)
  show ?thesis
    unfolding JDict dispatch_def json.case Let_def
    by (simp add: send_text_registry forward_or_unavailable_registry
        connect_or_unavailable_registry notify_registry)
qed (simp_all add: dispatch_def)

lemma iteration_registry:
  "iteration p w r (s\<lparr>peer_registry := reg\<rparr>) = put_registry reg (iteration p w r s)"
  by (cases r) (simp_all add: dispatch_registry)

lemma agree_eq: "agree s t \<Longrightarrow> t = s\<lparr>peer_registry := peer_registry t\<rparr>"
  by (simp add: agree_def)

lemma step_agree:
  assumes "agree s t"
  shows "agree (step s ev) (step t ev)"
proof -
  from assms obtain reg where t: "t = s\<lparr>peer_registry := reg\<rparr>"
    using agree_eq by blast
  show ?thesis
  proof (cases ev)
    case (Open w q)
    then show ?thesis by (simp add: t agree_def register_def)
  next
    case (Recv w r)
    show ?thesis
    proof (cases "handlers s w")
      case None
      with Recv show ?thesis by (simp add: t agree_def)
    next
      case (Some q)
      show ?thesis
      proof (cases "iteration q w r s")
        case (Inl x)
        obtain e s' where "x = (e, s')" by (cases x)
        with Inl Some Recv show ?thesis
          by (simp add: t agree_def iteration_registry cleanup_def)
      next
        case (Inr s')
        with Some Recv show ?thesis
          by (simp add: t agree_def iteration_registry)
      qed
    qed
  next
    case (Drop w)
    then show ?thesis by (simp add: t agree_def)
  qed
qed

lemma run_agree: "agree s t \<Longrightarrow> agree (run s evs) (run t evs)"
  by (induction evs arbitrary: s t) (simp_all add: run_Nil run_Cons step_agree)

subsection \<open>What a frame carries, what a message is read for\<close>

lemma dispatch_written:
  assumes "f \<in> set (written s (ending (dispatch p w (JDict d) s)))"
  shows "\<exists>e. snd f = JDict e \<and>
           (map_of e ''from'' = Some (JStr p) \<or>
            map_of e ''type'' = Some (JStr ''registered'') \<or>
            map_of e ''type'' = Some (JStr ''peer-unavailable''))"
proof -
  define good where "good = (\<lambda>m. \<exists>e. m = JDict e \<and>
           (map_of e ''from'' = Some (JStr p) \<or>
            map_of e ''type'' = Some (JStr ''registered'') \<or>
            map_of e ''type'' = Some (JStr ''peer-unavailable'')))"
  have g1: "good (JDict [(''type'', JStr ''registered''), (''peer_id'', JStr p)])"
    by (simp add: good_def)
  have g2: "good (JDict [(''type'', t), (''from'', JStr p)])" for t
    by (simp add: good_def)
  have g3: "good (JDict [(''type'', t), (''from'', JStr p), (k, v)])" for t k v
    by (simp add: good_def)
  have g4: "good (peer_unavailable tp)" for tp
    by (simp add: good_def peer_unavailable_def)
  from dispatch_ending [of p w d s] have "good (snd f)"
  proof (elim disjE exE conjE)
    assume "ending (dispatch p w (JDict d) s) = s"
    with assms show ?thesis by (simp add: written_same)
  next
    fix tw env
    assume e: "ending (dispatch p w (JDict d) s) = s\<lparr>sent := sent s @ [(tw, env)]\<rparr>"
      and m: "env \<in> {JDict [(''type'', JStr ''registered''), (''peer_id'', JStr p)],
              JDict [(''type'', JStr ''connection-request''), (''from'', JStr p)],
              JDict [(''type'', JStr ''offer''), (''from'', JStr p),
                     (''offer'', dict_get d ''offer'')],
              JDict [(''type'', JStr ''answer''), (''from'', JStr p),
                     (''answer'', dict_get d ''answer'')],
              JDict [(''type'', JStr ''ice-candidate''), (''from'', JStr p),
                     (''candidate'', dict_get d ''candidate'')],
              JDict [(''type'', JStr ''peer-disconnected''), (''from'', JStr p)],
              peer_unavailable (dict_get d ''target'')}"
    from e assms have f: "snd f = env" by (simp add: written_def)
    from m have "good env"
      using g1 g2 g3 g4 by (elim insertE emptyE) (simp_all only:)
    with f show ?thesis by simp
  qed
  then show ?thesis by (simp add: good_def)
qed

lemma consulted_type: "''type'' \<in> set (consulted t)"
  by (simp add: consulted_def)

lemma consulted_target: "''target'' \<in> set (consulted t)"
  by (simp add: consulted_def)

lemma consulted_payload:
  "''offer'' \<in> set (consulted (JStr ''offer''))"
  "''answer'' \<in> set (consulted (JStr ''answer''))"
  "''candidate'' \<in> set (consulted (JStr ''ice-candidate''))"
  by (simp_all add: consulted_def)

lemma dispatch_agree:
  assumes "\<forall>k \<in> set (consulted (dict_get d1 ''type'')). dict_get d1 k = dict_get d2 k"
  shows "dispatch p w (JDict d1) s = dispatch p w (JDict d2) s"
proof -
  from assms consulted_type have ty: "dict_get d2 ''type'' = dict_get d1 ''type''"
    by metis
  from assms consulted_target have tg: "dict_get d2 ''target'' = dict_get d1 ''target''"
    by metis
  have off: "dict_get d2 ''offer'' = dict_get d1 ''offer''"
    if "dict_get d1 ''type'' = JStr ''offer''"
    using assms that consulted_payload(1) by metis
  have ans: "dict_get d2 ''answer'' = dict_get d1 ''answer''"
    if "dict_get d1 ''type'' = JStr ''answer''"
    using assms that consulted_payload(2) by metis
  have ice: "dict_get d2 ''candidate'' = dict_get d1 ''candidate''"
    if "dict_get d1 ''type'' = JStr ''ice-candidate''"
    using assms that consulted_payload(3) by metis
  show ?thesis
    unfolding dispatch_def json.case Let_def ty tg
    using off ans ice by presburger
qed

section \<open>Registration\<close>

text \<open>
  C4. When a connection is accepted under a peer_id that is already a key of the
  dictionaries, the assignment replaces the stored connection: afterwards the peer_id
  resolves to the new connection only, in \<open>active_connections\<close> and in
  \<open>peer_registry\<close>. Nothing rejects the second registration: the new connection is
  served by its own coroutine, as any other.
\<close>

theorem C4_register_overwrites:
  assumes "active_connections s p = Some w1"
    and "w2 \<notin> dom (handlers s)"
  shows "lookup (active_connections (step s (Open w2 p))) (JStr p) = Inr (Some w2) \<and>
         peer_registry (step s (Open w2 p)) p = Some \<lparr>ws = w2, connected_to = None\<rparr> \<and>
         handlers (step s (Open w2 p)) w2 = Some p"
  using assms by (simp add: register_def)

theorem C4_register_overwrites_witness:
  "active_connections (run init [Open 1 ''A'']) ''A'' = Some 1 \<and>
   lookup (active_connections (run init [Open 1 ''A'', Open 2 ''A''])) (JStr ''A'') = Inr (Some 2) \<and>
   peer_registry (run init [Open 1 ''A'', Open 2 ''A'']) ''A'' = Some \<lparr>ws = 2, connected_to = None\<rparr> \<and>
   handlers (run init [Open 1 ''A'', Open 2 ''A'']) 2 = Some ''A''"
  using C4_register_overwrites [of "run init [Open 1 ''A'']" "''A''" 1 2]
  by (simp add: run_def init_def register_def)

text \<open>
  C6. A peer is a key of \<open>active_connections\<close> from the moment its connection is
  accepted, with nothing written yet and no message read from it. A \<open>register\<close>
  envelope read from a live connection writes one frame,
  \<open>{type: registered, peer_id: sender_id}\<close>, to the sender, and leaves every other
  part of the state, both dictionaries among them, as it was.
\<close>

theorem C6_register_is_acknowledgment:
  "(w \<notin> dom (handlers s) \<longrightarrow>
      lookup (active_connections (step s (Open w p))) (JStr p) = Inr (Some w) \<and>
      sent (step s (Open w p)) = sent s) \<and>
   (handlers s w = Some p \<and> w \<notin> dead s \<and> dict_get d ''type'' = JStr ''register'' \<longrightarrow>
      step s (Recv w (Parsed (JDict d))) =
        s\<lparr>sent := sent s @ [(w, JDict [(''type'', JStr ''registered''), (''peer_id'', JStr p)])]\<rparr>)"
  by (simp add: register_def dispatch_def send_text_def)

theorem C6_register_is_acknowledgment_witness:
  "lookup (active_connections (step init (Open 1 ''alice''))) (JStr ''alice'') = Inr (Some 1) \<and>
   sent (step init (Open 1 ''alice'')) = [] \<and>
   step (step init (Open 1 ''alice'')) (Recv 1 (Parsed (JDict [(''type'', JStr ''register'')]))) =
     (step init (Open 1 ''alice''))
       \<lparr>sent := [(1, JDict [(''type'', JStr ''registered''), (''peer_id'', JStr ''alice'')])]\<rparr>"
  using C6_register_is_acknowledgment [of 1 init "''alice''"]
    C6_register_is_acknowledgment [of 1 "step init (Open 1 ''alice'')" "''alice''" "[(''type'', JStr ''register'')]"]
  by (simp add: init_def register_def dict_get_def)

section \<open>Startup\<close>

text \<open>
  C7. When the key file or the certificate file does not exist, the \<open>__main__\<close> block
  prints its diagnostic and exits with status 1 without reaching \<open>uvicorn.run\<close>. When
  both exist it prints nothing and calls \<open>uvicorn.run\<close> on host 0.0.0.0 and port 10500
  with the two paths.
\<close>

theorem C7_startup_requires_certificates:
  "(\<not> (exists (base @ [''cert.key'']) \<and> exists (base @ [''cert.crt''])) \<longrightarrow>
      snd (main base exists) = Exit 1 \<and> fst (main base exists) \<noteq> []) \<and>
   (exists (base @ [''cert.key'']) \<and> exists (base @ [''cert.crt'']) \<longrightarrow>
      main base exists =
        ([], Serve \<lparr>host = ''0.0.0.0'', port = 10500,
                    ssl_keyfile = base @ [''cert.key''],
                    ssl_certfile = base @ [''cert.crt'']\<rparr>))"
  by (auto simp add: main_def)

theorem C7_startup_requires_certificates_witness:
  "snd (main [''srv''] (\<lambda>f. f = [''srv'', ''cert.key''])) = Exit 1 \<and>
   fst (main [''srv''] (\<lambda>f. f = [''srv'', ''cert.key''])) \<noteq> [] \<and>
   main [''srv''] (\<lambda>f. True) =
     ([], Serve \<lparr>host = ''0.0.0.0'', port = 10500,
                 ssl_keyfile = [''srv'', ''cert.key''],
                 ssl_certfile = [''srv'', ''cert.crt'']\<rparr>)"
  using C7_startup_requires_certificates [of "\<lambda>f. f = [''srv'', ''cert.key'']" "[''srv'']"]
    C7_startup_requires_certificates [of "\<lambda>f. True" "[''srv'']"]
  by simp


section \<open>Routing\<close>

text \<open>
  C1. Let X be the peer_id of the coroutine serving a connection, and let Y resolve to
  a live connection. When the coroutine reads a sequence of \<open>offer\<close>, \<open>answer\<close> and
  \<open>ice-candidate\<close> envelopes addressed to Y, the frames written are exactly one per
  envelope, all to Y's connection, in the order read; each carries the type of its
  envelope, \<open>from: X\<close> and the payload field of that type with the value the envelope
  had. Nothing else in the state changes.
\<close>

theorem C1_forwarding_in_order:
  assumes "handlers s wx = Some X"
    and "active_connections s Y = Some wy"
    and "wy \<notin> dead s"
    and "\<forall>d \<in> set msgs. negotiation d \<and> dict_get d ''target'' = JStr Y"
  shows "run s (map (\<lambda>d. Recv wx (Parsed (JDict d))) msgs) =
           s\<lparr>sent := sent s @ map (\<lambda>d. (wy, spec_forwarded X d)) msgs\<rparr> \<and>
         outbox (run s (map (\<lambda>d. Recv wx (Parsed (JDict d))) msgs)) wy =
           outbox s wy @ map (spec_forwarded X) msgs"
proof -
  from assms
  have main: "run s (map (\<lambda>d. Recv wx (Parsed (JDict d))) msgs) =
                s\<lparr>sent := sent s @ map (\<lambda>d. (wy, spec_forwarded X d)) msgs\<rparr>"
  proof (induction msgs arbitrary: s)
    case Nil
    then show ?case by (simp add: run_Nil)
  next
    case (Cons d msgs)
    let ?s1 = "s\<lparr>sent := sent s @ [(wy, spec_forwarded X d)]\<rparr>"
    from Cons.prems have first: "step s (Recv wx (Parsed (JDict d))) = ?s1"
      by (intro forward_step) simp_all
    from Cons.prems
    have "run ?s1 (map (\<lambda>d. Recv wx (Parsed (JDict d))) msgs) =
            ?s1\<lparr>sent := sent ?s1 @ map (\<lambda>d. (wy, spec_forwarded X d)) msgs\<rparr>"
      by (intro Cons.IH) simp_all
    with first show ?case by (simp add: run_Cons)
  qed
  have "filter (\<lambda>f. fst f = wy) (map (\<lambda>d. (wy, spec_forwarded X d)) msgs) =
          map (\<lambda>d. (wy, spec_forwarded X d)) msgs"
    by (induction msgs) simp_all
  then have "outbox (s\<lparr>sent := sent s @ map (\<lambda>d. (wy, spec_forwarded X d)) msgs\<rparr>) wy =
               outbox s wy @ map (spec_forwarded X) msgs"
    by (simp add: outbox_def o_def)
  with main show ?thesis by simp
qed

theorem C1_forwarding_in_order_witness:
  "sent (run (run init [Open 1 ''alice'', Open 2 ''bob''])
      (map (\<lambda>d. Recv 1 (Parsed (JDict d)))
        [[(''type'', JStr ''offer''), (''target'', JStr ''bob''),
          (''offer'', JDict [(''sdp'', JStr ''X'')])],
         [(''type'', JStr ''ice-candidate''), (''target'', JStr ''bob''),
          (''candidate'', JInt 7)]])) =
   [(2, JDict [(''type'', JStr ''offer''), (''from'', JStr ''alice''),
               (''offer'', JDict [(''sdp'', JStr ''X'')])]),
    (2, JDict [(''type'', JStr ''ice-candidate''), (''from'', JStr ''alice''),
               (''candidate'', JInt 7)])]"
  using C1_forwarding_in_order [of "run init [Open 1 ''alice'', Open 2 ''bob'']" 1 "''alice''"
      "''bob''" 2
      "[[(''type'', JStr ''offer''), (''target'', JStr ''bob''),
         (''offer'', JDict [(''sdp'', JStr ''X'')])],
        [(''type'', JStr ''ice-candidate''), (''target'', JStr ''bob''),
         (''candidate'', JInt 7)]]"]
  by (simp add: run_def init_def register_def negotiation_def dict_get_def
      spec_forwarded_def spec_payload_field_def)

text \<open>
  C8. What a step does with a message depends on the message only through the keys the
  code reads: two messages that agree on them, whatever they hold under \<open>from\<close> or any
  other key, lead to the same state and so to the same frames. Every frame a step
  writes is either one of the two replies to the sender (\<open>registered\<close>,
  \<open>peer-unavailable\<close>) or carries \<open>from\<close> equal to the peer_id of the path.
\<close>

theorem C8_from_is_path_identifier:
  assumes "handlers s w = Some p"
    and "\<forall>k \<in> set (consulted (dict_get d1 ''type'')). dict_get d1 k = dict_get d2 k"
  shows "step s (Recv w (Parsed (JDict d1))) = step s (Recv w (Parsed (JDict d2))) \<and>
         (\<forall>f \<in> set (written s (step s (Recv w (Parsed (JDict d1))))).
            \<exists>e. snd f = JDict e \<and>
              (map_of e ''from'' = Some (JStr p) \<or>
               map_of e ''type'' = Some (JStr ''registered'') \<or>
               map_of e ''type'' = Some (JStr ''peer-unavailable'')))"
proof
  from dispatch_agree [OF assms(2)]
  have "dispatch p w (JDict d1) s = dispatch p w (JDict d2) s" .
  with assms(1) show "step s (Recv w (Parsed (JDict d1))) = step s (Recv w (Parsed (JDict d2)))"
    by simp
next
  show "\<forall>f \<in> set (written s (step s (Recv w (Parsed (JDict d1))))).
          \<exists>e. snd f = JDict e \<and>
            (map_of e ''from'' = Some (JStr p) \<or>
             map_of e ''type'' = Some (JStr ''registered'') \<or>
             map_of e ''type'' = Some (JStr ''peer-unavailable''))"
    unfolding step_Recv_written [OF assms(1)] iteration.simps
    using dispatch_written by blast
qed

theorem C8_from_is_path_identifier_witness:
  "step (run init [Open 1 ''alice'', Open 2 ''bob''])
     (Recv 1 (Parsed (JDict [(''type'', JStr ''offer''), (''target'', JStr ''bob''),
                             (''from'', JStr ''mallory''), (''offer'', JInt 1)]))) =
   step (run init [Open 1 ''alice'', Open 2 ''bob''])
     (Recv 1 (Parsed (JDict [(''type'', JStr ''offer''), (''target'', JStr ''bob''),
                             (''offer'', JInt 1)]))) \<and>
   written (run init [Open 1 ''alice'', Open 2 ''bob''])
     (step (run init [Open 1 ''alice'', Open 2 ''bob''])
       (Recv 1 (Parsed (JDict [(''type'', JStr ''offer''), (''target'', JStr ''bob''),
                               (''from'', JStr ''mallory''), (''offer'', JInt 1)])))) =
   [(2, JDict [(''type'', JStr ''offer''), (''from'', JStr ''alice''), (''offer'', JInt 1)])]"
  using C8_from_is_path_identifier [of "run init [Open 1 ''alice'', Open 2 ''bob'']" 1 "''alice''"
      "[(''type'', JStr ''offer''), (''target'', JStr ''bob''),
        (''from'', JStr ''mallory''), (''offer'', JInt 1)]"
      "[(''type'', JStr ''offer''), (''target'', JStr ''bob''), (''offer'', JInt 1)]"]
  by (simp add: run_def init_def register_def consulted_def dict_get_def written_def
      dispatch_def forward_or_unavailable_def send_text_def)

section \<open>Invariants of the registry\<close>

text \<open>
  C9. In every state the relay can reach from its start, every entry of
  \<open>peer_registry\<close> has \<open>connected_to\<close> equal to None. No step reads
  \<open>peer_registry\<close>: two states that differ in it at most still differ in it at most
  after the same events, so the frames written, \<open>active_connections\<close> and the running
  coroutines never depend on it.
\<close>

theorem C9_connected_to_is_never_set:
  "(peer_registry (run init evs) p = Some e \<longrightarrow> connected_to e = None) \<and>
   (agree s t \<longrightarrow> agree (run s evs) (run t evs))"
proof -
  have "connected_to e = None" if "peer_registry (run init evs) p = Some e"
  proof (rule run_connected_to [OF _ that])
    fix q e'
    assume "peer_registry init q = Some e'"
    then show "connected_to e' = None" by (simp add: init_def)
  qed
  then show ?thesis by (simp add: run_agree)
qed

theorem C9_connected_to_is_never_set_witness:
  "peer_registry (run init [Open 1 ''alice'', Recv 1 (Parsed (JDict [(''type'', JStr ''register'')]))])
     ''alice'' = Some \<lparr>ws = 1, connected_to = None\<rparr> \<and>
   agree init (init\<lparr>peer_registry := [''zed'' \<mapsto> \<lparr>ws = 9, connected_to = Some ''alice''\<rparr>]\<rparr>) \<and>
   agree (run init [Open 1 ''alice''])
     (run (init\<lparr>peer_registry := [''zed'' \<mapsto> \<lparr>ws = 9, connected_to = Some ''alice''\<rparr>]\<rparr>)
       [Open 1 ''alice''])"
  using C9_connected_to_is_never_set
    [of "[Open 1 ''alice'', Recv 1 (Parsed (JDict [(''type'', JStr ''register'')]))]" "''alice''"
      "\<lparr>ws = 1, connected_to = None\<rparr>" init
      "init\<lparr>peer_registry := [''zed'' \<mapsto> \<lparr>ws = 9, connected_to = Some ''alice''\<rparr>]\<rparr>"]
    C9_connected_to_is_never_set
    [of "[Open 1 ''alice'']" "''alice''" "\<lparr>ws = 1, connected_to = None\<rparr>" init
      "init\<lparr>peer_registry := [''zed'' \<mapsto> \<lparr>ws = 9, connected_to = Some ''alice''\<rparr>]\<rparr>"]
  by (simp add: run_def init_def register_def agree_def dispatch_def dict_get_def send_text_def)

text \<open>
  C10. The \<open>finally\<close> block deletes the key \<open>peer_id\<close> whatever connection is stored
  under it. When a peer_id has been registered again on a second connection while the
  coroutine of the first is still running, the end of that first coroutine, for any
  reason, removes the entry of the second connection from both dictionaries: the
  peer_id no longer resolves, although the second connection is still being served.
\<close>

theorem C10_orphan_cleanup_removes_newest:
  assumes "handlers s w1 = Some p"
    and "handlers s w2 = Some p"
    and "w1 \<noteq> w2"
    and "active_connections s p = Some w2"
    and "iteration p w1 r s = Inl e"
  shows "active_connections (step s (Recv w1 r)) p = None \<and>
         peer_registry (step s (Recv w1 r)) p = None \<and>
         lookup (active_connections (step s (Recv w1 r))) (JStr p) = Inr None \<and>
         handlers (step s (Recv w1 r)) w2 = Some p"
proof -
  obtain x s' where e: "e = (x, s')" by (cases e)
  note raised = step_Recv_raised [OF assms(1) assms(5) [unfolded e]]
  from raised(2) have "active_connections (step s (Recv w1 r)) p = None"
    unfolding raised(1) by (simp add: cleanup_def)
  moreover from raised(3) have "peer_registry (step s (Recv w1 r)) p = None"
    unfolding raised(1) by (simp add: cleanup_def)
  moreover from assms(2,3) have "handlers (step s (Recv w1 r)) w2 = Some p"
    unfolding raised(1) by (simp add: cleanup_def)
  ultimately show ?thesis by simp
qed

theorem C10_orphan_cleanup_removes_newest_witness:
  "active_connections (run init [Open 1 ''A'', Open 2 ''A'']) ''A'' = Some 2 \<and>
   handlers (run init [Open 1 ''A'', Open 2 ''A'']) 1 = Some ''A'' \<and>
   active_connections (run init [Open 1 ''A'', Open 2 ''A'', Recv 1 Disconnected]) ''A'' = None \<and>
   peer_registry (run init [Open 1 ''A'', Open 2 ''A'', Recv 1 Disconnected]) ''A'' = None \<and>
   handlers (run init [Open 1 ''A'', Open 2 ''A'', Recv 1 Disconnected]) 2 = Some ''A''"
  using C10_orphan_cleanup_removes_newest
    [of "run init [Open 1 ''A'', Open 2 ''A'']" 1 "''A''" 2 Disconnected
      "(WebSocketDisconnect, run init [Open 1 ''A'', Open 2 ''A''])"]
  by (simp add: run_def init_def register_def cleanup_def)

section \<open>Failures\<close>

text \<open>
  C2, as the code has it. A JSON object without \<open>type\<close> matches no branch: nothing is
  written, nothing changes and the coroutine stays in its loop. A text that is not JSON,
  or a JSON value that is not an object, raises inside the \<open>try\<close>, which encloses the
  whole loop: nothing is written to the sender either, but the coroutine leaves the loop
  and the \<open>finally\<close> block deletes its peer_id from both dictionaries.
\<close>

theorem C2_malformed_input:
  assumes "handlers s w = Some p"
  shows "(dict_get d ''type'' = JNull \<longrightarrow> step s (Recv w (Parsed (JDict d))) = s) \<and>
         (r = NotJSON \<or> (\<exists>m. r = Parsed m \<and> (\<forall>d'. m \<noteq> JDict d')) \<longrightarrow>
            step s (Recv w r) = cleanup p (s\<lparr>handlers := (handlers s)(w := None)\<rparr>) \<and>
            sent (step s (Recv w r)) = sent s \<and>
            \<not> serving (step s (Recv w r)) w \<and>
            active_connections (step s (Recv w r)) p = None \<and>
            peer_registry (step s (Recv w r)) p = None)"
proof (intro conjI impI)
  assume "dict_get d ''type'' = JNull"
  with assms show "step s (Recv w (Parsed (JDict d))) = s"
    by (simp add: dispatch_def)
next
  assume "r = NotJSON \<or> (\<exists>m. r = Parsed m \<and> (\<forall>d'. m \<noteq> JDict d'))"
  then have "\<exists>e. iteration p w r s = Inl (e, s)"
    by (auto simp add: dispatch_def split: json.splits)
  with assms have *: "step s (Recv w r) = cleanup p (s\<lparr>handlers := (handlers s)(w := None)\<rparr>)"
    by auto
  show "step s (Recv w r) = cleanup p (s\<lparr>handlers := (handlers s)(w := None)\<rparr>)"
    by (fact *)
  show "sent (step s (Recv w r)) = sent s"
    unfolding * by (simp add: cleanup_def)
  show "\<not> serving (step s (Recv w r)) w"
    unfolding * by (simp add: cleanup_def serving_def)
  show "active_connections (step s (Recv w r)) p = None"
    unfolding * by (simp add: cleanup_def)
  show "peer_registry (step s (Recv w r)) p = None"
    unfolding * by (simp add: cleanup_def)
qed

theorem C2_malformed_input_witness:
  "step (run init [Open 1 ''alice'']) (Recv 1 (Parsed (JDict [(''sdp'', JStr ''X'')]))) =
     run init [Open 1 ''alice''] \<and>
   sent (step (run init [Open 1 ''alice'']) (Recv 1 (Parsed (JList [])))) = [] \<and>
   \<not> serving (step (run init [Open 1 ''alice'']) (Recv 1 (Parsed (JList [])))) 1 \<and>
   active_connections (step (run init [Open 1 ''alice'']) (Recv 1 (Parsed (JList [])))) ''alice'' = None"
  using C2_malformed_input [of "run init [Open 1 ''alice'']" 1 "''alice''" "[(''sdp'', JStr ''X'')]"
      "Parsed (JList [])"]
  by (simp add: run_def init_def register_def dict_get_def dispatch_def cleanup_def serving_def)

text \<open>
  C2 as stated fails on a text that is not JSON: the coroutine serving alice is in its
  loop before the frame and has left it afterwards, and alice is no longer a key.
\<close>

theorem C2_not_json_ends_the_loop:
  "serving (run init [Open 1 ''alice'']) 1 \<and>
   active_connections (run init [Open 1 ''alice'']) ''alice'' = Some 1 \<and>
   \<not> serving (step (run init [Open 1 ''alice'']) (Recv 1 NotJSON)) 1 \<and>
   active_connections (step (run init [Open 1 ''alice'']) (Recv 1 NotJSON)) ''alice'' = None"
  by (simp add: run_def init_def register_def serving_def cleanup_def)

text \<open>
  C3, as the code has it. The target is not a key of \<open>active_connections\<close> (a string
  that is not registered, or a missing, null, boolean or numeric target). For \<open>connect\<close>,
  \<open>offer\<close>, \<open>answer\<close> and \<open>ice-candidate\<close> read from a live connection, exactly one
  frame is written, the \<open>peer-unavailable\<close> reply carrying that target, to the sender,
  and nothing is forwarded. Nothing else changes for \<open>offer\<close>, \<open>answer\<close> and
  \<open>ice-candidate\<close>, and for \<open>connect\<close> when the target is a text that line 78 can
  print. For \<open>disconnect\<close> nothing is written at all: its branch has no \<open>else\<close>.
\<close>

theorem C3_unavailable_target:
  assumes "handlers s w = Some p"
    and "w \<notin> dead s"
    and "lookup (active_connections s) (dict_get d ''target'') = Inr None"
  shows "(replying d \<longrightarrow>
            sent (step s (Recv w (Parsed (JDict d)))) =
              sent s @ [(w, JDict [(''type'', JStr ''peer-unavailable''),
                                   (''target'', dict_get d ''target'')])]) \<and>
         (replying d \<and> (negotiation d \<or> encodable (dict_get d ''target'')) \<longrightarrow>
            step s (Recv w (Parsed (JDict d))) =
              s\<lparr>sent := sent s @ [(w, JDict [(''type'', JStr ''peer-unavailable''),
                                             (''target'', dict_get d ''target'')])]\<rparr>) \<and>
         (dict_get d ''type'' = JStr ''disconnect'' \<longrightarrow>
            step s (Recv w (Parsed (JDict d))) = s)"
proof (intro conjI impI)
  assume r: "replying d"
  have "sent (step s (Recv w (Parsed (JDict d)))) =
          sent s @ written s (step s (Recv w (Parsed (JDict d))))"
    by (rule step_sent_grows)
  also from unavailable_written [OF assms(1,2) r assms(3)]
  have "written s (step s (Recv w (Parsed (JDict d)))) =
          [(w, JDict [(''type'', JStr ''peer-unavailable''), (''target'', dict_get d ''target'')])]"
    by (simp add: peer_unavailable_def)
  finally show "sent (step s (Recv w (Parsed (JDict d)))) =
      sent s @ [(w, JDict [(''type'', JStr ''peer-unavailable''),
                           (''target'', dict_get d ''target'')])]" .
next
  assume "replying d \<and> (negotiation d \<or> encodable (dict_get d ''target''))"
  then have r: "replying d" and e: "negotiation d \<or> encodable (dict_get d ''target'')"
    by simp_all
  from unavailable_step [OF assms(1,2) r assms(3) e]
  show "step s (Recv w (Parsed (JDict d))) =
      s\<lparr>sent := sent s @ [(w, JDict [(''type'', JStr ''peer-unavailable''),
                                     (''target'', dict_get d ''target'')])]\<rparr>"
    by (simp add: peer_unavailable_def)
next
  assume "dict_get d ''type'' = JStr ''disconnect''"
  with assms show "step s (Recv w (Parsed (JDict d))) = s"
    by (simp add: dispatch_def)
qed

theorem C3_unavailable_target_witness:
  "step (run init [Open 1 ''alice''])
     (Recv 1 (Parsed (JDict [(''type'', JStr ''connect''), (''target'', JStr ''bob'')]))) =
     (run init [Open 1 ''alice''])
       \<lparr>sent := [(1, JDict [(''type'', JStr ''peer-unavailable''), (''target'', JStr ''bob'')])]\<rparr> \<and>
   sent (step (run init [Open 1 ''alice''])
     (Recv 1 (Parsed (JDict [(''type'', JStr ''connect''),
                             (''target'', JStrSurrogate [55296])])))) =
     [(1, JDict [(''type'', JStr ''peer-unavailable''), (''target'', JStrSurrogate [55296])])] \<and>
   step (run init [Open 1 ''alice''])
     (Recv 1 (Parsed (JDict [(''type'', JStr ''disconnect''), (''target'', JStr ''carol'')]))) =
     run init [Open 1 ''alice'']"
  using C3_unavailable_target [of "run init [Open 1 ''alice'']" 1 "''alice''"
      "[(''type'', JStr ''connect''), (''target'', JStr ''bob'')]"]
    C3_unavailable_target [of "run init [Open 1 ''alice'']" 1 "''alice''"
      "[(''type'', JStr ''connect''), (''target'', JStrSurrogate [55296])]"]
    C3_unavailable_target [of "run init [Open 1 ''alice'']" 1 "''alice''"
      "[(''type'', JStr ''disconnect''), (''target'', JStr ''carol'')]"]
  by (simp add: run_def init_def register_def dict_get_def replying_def negotiation_def
      dispatch_def forward_or_unavailable_def connect_or_unavailable_def send_text_def
      print_not_found_def peer_unavailable_def cleanup_def)

text \<open>
  C3 as stated fails for \<open>disconnect\<close>: alice sends it to bob, who is not registered,
  and no frame is written, so alice receives no \<open>peer-unavailable\<close> reply.
\<close>

theorem C3_disconnect_gets_no_reply:
  "handlers (run init [Open 1 ''alice'']) 1 = Some ''alice'' \<and>
   active_connections (run init [Open 1 ''alice'']) ''bob'' = None \<and>
   sent (step (run init [Open 1 ''alice''])
     (Recv 1 (Parsed (JDict [(''type'', JStr ''disconnect''), (''target'', JStr ''bob'')])))) = []"
  by (simp add: run_def init_def register_def dispatch_def dict_get_def)

text \<open>
  The \<open>print\<close> of line 78 on a target it cannot encode: alice sends \<open>connect\<close> with
  a lone surrogate as target. The reply is written, then the exception leaves the loop
  and the \<open>finally\<close> block deletes alice.
\<close>

lemma connect_with_unprintable_target:
  "sent (step (run init [Open 1 ''alice''])
     (Recv 1 (Parsed (JDict [(''type'', JStr ''connect''),
                             (''target'', JStrSurrogate [55296])])))) =
     [(1, JDict [(''type'', JStr ''peer-unavailable''), (''target'', JStrSurrogate [55296])])] \<and>
   \<not> serving (step (run init [Open 1 ''alice''])
     (Recv 1 (Parsed (JDict [(''type'', JStr ''connect''),
                             (''target'', JStrSurrogate [55296])])))) 1 \<and>
   active_connections (step (run init [Open 1 ''alice''])
     (Recv 1 (Parsed (JDict [(''type'', JStr ''connect''),
                             (''target'', JStrSurrogate [55296])])))) ''alice'' = None"
  by (simp add: run_def init_def register_def dict_get_def dispatch_def
      connect_or_unavailable_def send_text_def print_not_found_def peer_unavailable_def
      cleanup_def serving_def)

text \<open>
  C5, as the code has it. When the coroutine of a peer A leaves its loop, whatever was
  raised, A is deleted from both dictionaries. As long as no client connects under A
  again, A stays absent, and a \<open>connect\<close>, \<open>offer\<close>, \<open>answer\<close> or \<open>ice-candidate\<close>
  envelope addressed to A, read from a live connection, is answered with exactly one
  \<open>peer-unavailable\<close> reply naming A. (A \<open>disconnect\<close> envelope addressed to A gets no
  reply.)
\<close>

theorem C5_cleanup_on_close:
  assumes "handlers s a = Some A"
    and "iteration A a r s = Inl e"
    and "\<forall>ev \<in> set evs. \<not> opens A ev"
    and "s' = run (step s (Recv a r)) evs"
    and "handlers s' b = Some B"
    and "b \<notin> dead s'"
    and "replying d"
    and "dict_get d ''target'' = JStr A"
  shows "active_connections (step s (Recv a r)) A = None \<and>
         peer_registry (step s (Recv a r)) A = None \<and>
         lookup (active_connections s') (JStr A) = Inr None \<and>
         step s' (Recv b (Parsed (JDict d))) =
           s'\<lparr>sent := sent s' @ [(b, JDict [(''type'', JStr ''peer-unavailable''),
                                            (''target'', JStr A)])]\<rparr>"
proof -
  obtain x s1 where e: "e = (x, s1)" by (cases e)
  note raised = step_Recv_raised [OF assms(1) assms(2) [unfolded e]]
  have gone: "active_connections (step s (Recv a r)) A = None"
    and gone': "peer_registry (step s (Recv a r)) A = None"
    unfolding raised(1) by (simp_all add: cleanup_def)
  from run_keeps_absent [OF gone assms(3)] assms(4)
  have absent: "active_connections s' A = None" by simp
  then have look: "lookup (active_connections s') (dict_get d ''target'') = Inr None"
    by (simp add: assms(8))
  have "negotiation d \<or> encodable (dict_get d ''target'')"
    by (simp add: assms(8))
  from unavailable_step [OF assms(5) assms(6) assms(7) look this]
  have "step s' (Recv b (Parsed (JDict d))) =
          s'\<lparr>sent := sent s' @ [(b, JDict [(''type'', JStr ''peer-unavailable''),
                                           (''target'', JStr A)])]\<rparr>"
    by (simp add: peer_unavailable_def assms(8))
  with gone gone' absent show ?thesis by simp
qed

theorem C5_cleanup_on_close_witness:
  "active_connections (run init [Open 1 ''alice'', Open 2 ''bob'', Recv 2 Disconnected]) ''bob'' = None \<and>
   sent (run init [Open 1 ''alice'', Open 2 ''bob'', Recv 2 Disconnected, Drop 7,
                   Recv 1 (Parsed (JDict [(''type'', JStr ''ice-candidate''), (''target'', JStr ''bob''),
                                          (''candidate'', JDict [])]))]) =
     [(1, JDict [(''type'', JStr ''peer-unavailable''), (''target'', JStr ''bob'')])]"
  using C5_cleanup_on_close [of "run init [Open 1 ''alice'', Open 2 ''bob'']" 2 "''bob''"
      Disconnected "(WebSocketDisconnect, run init [Open 1 ''alice'', Open 2 ''bob''])" "[Drop 7]"
      "run init [Open 1 ''alice'', Open 2 ''bob'', Recv 2 Disconnected, Drop 7]" 1 "''alice''"
      "[(''type'', JStr ''ice-candidate''), (''target'', JStr ''bob''), (''candidate'', JDict [])]"]
  by (simp add: run_def init_def register_def cleanup_def dict_get_def replying_def negotiation_def
      dispatch_def forward_or_unavailable_def send_text_def peer_unavailable_def)

text \<open>
  C5 as stated fails for \<open>disconnect\<close>: after alice's connection has closed, bob
  sends a \<open>disconnect\<close> envelope addressed to alice and no frame is written.
\<close>

theorem C5_disconnect_to_closed_peer:
  "active_connections (run init [Open 1 ''alice'', Open 2 ''bob'', Recv 1 Disconnected]) ''alice'' = None \<and>
   handlers (run init [Open 1 ''alice'', Open 2 ''bob'', Recv 1 Disconnected]) 2 = Some ''bob'' \<and>
   sent (run init [Open 1 ''alice'', Open 2 ''bob'', Recv 1 Disconnected,
                   Recv 2 (Parsed (JDict [(''type'', JStr ''disconnect''), (''target'', JStr ''alice'')]))]) = []"
  by (simp add: run_def init_def register_def cleanup_def dispatch_def dict_get_def)

end
